theory Spec2Isabelle
  imports Complex_Main "HOL-Library.Char_ord" "HOL-Library.List_Lexorder" "HOL-Library.Multiset" "HOL-Library.Sublist"
begin

section \<open>Python values and failures\<close>

text \<open>
  The module \<^verbatim>\<open>datasets/ucf101/producer.py\<close> is embedded function by function.
  A raised exception is a value \<open>Inl e\<close> of the result type \<open>error + 'a\<close>; a normal
  return is \<open>Inr v\<close>. Python integers are \<open>int\<close>, a manifest row (one line of the CSV
  file, as \<^verbatim>\<open>csv.reader\<close> yields it) is a list of strings.
\<close>

datatype error =
    AssertionError
  | ZeroDivisionError
  | IndexError
  | ValueError
  | NameError
  | StopIteration

type_synonym row = "string list"

text \<open>\<^verbatim>\<open>xs[i]\<close> for a non-negative constant index.\<close>

definition py_nth :: "'a list \<Rightarrow> nat \<Rightarrow> error + 'a" where
  "py_nth xs i = (if i < length xs then Inr (xs ! i) else Inl IndexError)"

text \<open>\<^verbatim>\<open>xs[:n]\<close>: a negative bound counts from the end of the list.\<close>

definition py_slice_to :: "'a list \<Rightarrow> int \<Rightarrow> 'a list" where
  "py_slice_to xs n =
     (if 0 \<le> n then take (nat n) xs else take (length xs - nat (- n)) xs)"

text \<open>\<^verbatim>\<open>range(start, stop, step)\<close> for a non-zero step, as a list.\<close>

function py_range :: "int \<Rightarrow> int \<Rightarrow> int \<Rightarrow> int list" where
  "py_range start stop step =
     (if 0 < step \<and> start < stop then start # py_range (start + step) stop step
      else if step < 0 \<and> stop < start then start # py_range (start + step) stop step
      else [])"
  by pat_completeness auto
termination
  by (relation "measure (\<lambda>(start, stop, step).
        nat (if 0 < step then stop - start else start - stop))") auto

declare py_range.simps [simp del]

section \<open>Resampling a frame list\<close>

text \<open>
  \<^verbatim>\<open>DataSet.rescale_list(input_list, size)\<close> (the parameter \<^verbatim>\<open>size\<close> is \<open>sz\<close> here): the assertion, the floor division (which
  raises for \<open>size = 0\<close>), the \<^verbatim>\<open>range\<close> (which raises for a zero step), the list
  comprehension and the final slice.
\<close>

definition rescale_list :: "'a list \<Rightarrow> int \<Rightarrow> error + 'a list" where
  "rescale_list input_list sz =
     (if \<not> sz \<le> int (length input_list) then Inl AssertionError
      else if sz = 0 then Inl ZeroDivisionError
      else
        let skip = int (length input_list) div sz in
        if skip = 0 then Inl ValueError
        else
          let output = map (\<lambda>i. input_list ! nat i)
                         (py_range 0 (int (length input_list)) skip)
          in Inr (py_slice_to output sz))"

section \<open>The catalog: \<^verbatim>\<open>DataSet\<close>\<close>

text \<open>
  The fields of a \<^verbatim>\<open>DataSet\<close> instance. \<open>class_limit\<close> is \<^verbatim>\<open>None\<close> or an integer;
  \<open>data\<close> holds manifest rows \<^verbatim>\<open>[split, class, clip, frame count, ...]\<close>.
\<close>

record DataSet =
  seq_length :: int
  class_limit :: "int option"
  max_frames :: int
  data :: "row list"
  classes :: "string list"
  image_shape :: "int list"

text \<open>\<^verbatim>\<open>[item[1] for item in self.data]\<close>: the first row without a second column raises.\<close>

fun item_classes :: "row list \<Rightarrow> error + string list" where
  "item_classes [] = Inr []"
| "item_classes (item # rest) =
     (case py_nth item 1 of
        Inl e \<Rightarrow> Inl e
      | Inr c \<Rightarrow>
          (case item_classes rest of
             Inl e \<Rightarrow> Inl e
           | Inr cs \<Rightarrow> Inr (c # cs)))"

text \<open>
  \<^verbatim>\<open>get_classes\<close>: \<^verbatim>\<open>sorted(set(...))\<close> is the sorted list of the distinct labels
  (strings compare by code point, lexicographically), cut by the slice when a limit is set.
\<close>

definition get_classes :: "DataSet \<Rightarrow> error + string list" where
  "get_classes self =
     (case item_classes (data self) of
        Inl e \<Rightarrow> Inl e
      | Inr labels \<Rightarrow>
          let cs = sort (remdups labels) in
          (case class_limit self of
             Some n \<Rightarrow> Inr (py_slice_to cs n)
           | None \<Rightarrow> Inr cs))"

text \<open>
  \<^verbatim>\<open>sample_filter\<close>. The conversion \<^verbatim>\<open>int(...)\<close> of a string is the parameter
  \<open>py_int\<close> (\<open>None\<close> where Python raises \<^verbatim>\<open>ValueError\<close>). The conjunction is
  evaluated left to right and stops at the first false operand.
\<close>

definition sample_filter :: "(string \<Rightarrow> int option) \<Rightarrow> DataSet \<Rightarrow> row \<Rightarrow> error + bool" where
  "sample_filter py_int self x =
     (case py_nth x 3 of
        Inl e \<Rightarrow> Inl e
      | Inr s \<Rightarrow>
          (case py_int s of
             None \<Rightarrow> Inl ValueError
           | Some n \<Rightarrow>
               if \<not> seq_length self \<le> n then Inr False
               else if \<not> n \<le> max_frames self then Inr False
               else Inr (x ! 1 \<in> set (classes self))))"

text \<open>\<^verbatim>\<open>list(filter(f, xs))\<close> for a predicate that may raise.\<close>

fun py_filter :: "('a \<Rightarrow> error + bool) \<Rightarrow> 'a list \<Rightarrow> error + 'a list" where
  "py_filter f [] = Inr []"
| "py_filter f (x # xs) =
     (case f x of
        Inl e \<Rightarrow> Inl e
      | Inr b \<Rightarrow>
          (case py_filter f xs of
             Inl e \<Rightarrow> Inl e
           | Inr ys \<Rightarrow> Inr (if b then x # ys else ys)))"

definition clean_data :: "(string \<Rightarrow> int option) \<Rightarrow> DataSet \<Rightarrow> error + row list" where
  "clean_data py_int self = py_filter (sample_filter py_int self) (data self)"

text \<open>
  \<^verbatim>\<open>DataSet.__init__\<close>. \<open>raw\<close> is what \<^verbatim>\<open>get_data()\<close> read from the manifest file.
  The vocabulary is computed while \<open>data\<close> still holds the raw rows; only then is
  \<open>data\<close> replaced by the cleaned rows.
\<close>

definition DataSet_init ::
  "(string \<Rightarrow> int option) \<Rightarrow> row list \<Rightarrow> int \<Rightarrow> int option \<Rightarrow> int list \<Rightarrow> error + DataSet" where
  "DataSet_init py_int raw seq_len nb_classes input_shape =
     (let self0 = \<lparr>seq_length = seq_len, class_limit = nb_classes, max_frames = 300,
                   data = raw, classes = [], image_shape = input_shape\<rparr>
      in case get_classes self0 of
           Inl e \<Rightarrow> Inl e
         | Inr cs \<Rightarrow>
             let self1 = self0\<lparr>classes := cs\<rparr>
             in (case clean_data py_int self1 of
                   Inl e \<Rightarrow> Inl e
                 | Inr d \<Rightarrow> Inr (self1\<lparr>data := d\<rparr>)))"

text \<open>\<^verbatim>\<open>xs.index(v)\<close>: the first position of \<open>v\<close>, or \<^verbatim>\<open>ValueError\<close>.\<close>

fun py_index :: "'a list \<Rightarrow> 'a \<Rightarrow> error + nat" where
  "py_index [] v = Inl ValueError"
| "py_index (x # xs) v =
     (if x = v then Inr 0
      else (case py_index xs v of
              Inl e \<Rightarrow> Inl e
            | Inr i \<Rightarrow> Inr (Suc i)))"

text \<open>
  Modelled from the spec: \<^verbatim>\<open>keras.utils.to_categorical\<close> is not part of the sources. It
  is the one-hot primitive of the specification, \<^verbatim>\<open>OneHot(index, cardinality)\<close>: a
  binary vector of length \<open>cardinality\<close> with a \<open>1\<close> at \<open>index\<close>; an index outside the
  vector raises.
\<close>

definition to_categorical :: "nat \<Rightarrow> nat \<Rightarrow> error + nat list" where
  "to_categorical y num_classes =
     (if y < num_classes then Inr (map (\<lambda>j. if j = y then 1 else 0) [0..<num_classes])
      else Inl IndexError)"

definition get_class_one_hot :: "DataSet \<Rightarrow> string \<Rightarrow> error + nat list" where
  "get_class_one_hot self class_str =
     (case py_index (classes self) class_str of
        Inl e \<Rightarrow> Inl e
      | Inr label_encoded \<Rightarrow>
          (case to_categorical label_encoded (length (classes self)) of
             Inl e \<Rightarrow> Inl e
           | Inr label_hot \<Rightarrow>
               if length label_hot \<noteq> length (classes self) then Inl AssertionError
               else Inr label_hot))"

text \<open>\<^verbatim>\<open>lambda x: x[0] == which\<close>, and \<^verbatim>\<open>split_train_test\<close>.\<close>

definition split_is :: "string \<Rightarrow> row \<Rightarrow> error + bool" where
  "split_is which x = (case py_nth x 0 of Inl e \<Rightarrow> Inl e | Inr s \<Rightarrow> Inr (s = which))"

definition split_train_test :: "DataSet \<Rightarrow> error + (row list \<times> row list)" where
  "split_train_test self =
     (case py_filter (split_is ''train'') (data self) of
        Inl e \<Rightarrow> Inl e
      | Inr train \<Rightarrow>
          (case py_filter (split_is ''test'') (data self) of
             Inl e \<Rightarrow> Inl e
           | Inr test \<Rightarrow> Inr (train, test)))"

section \<open>Frames of a sample\<close>

text \<open>\<^verbatim>\<open>os.path.join\<close> (POSIX): a component starting with \<^verbatim>\<open>/\<close> restarts the path.\<close>

definition path_join2 :: "string \<Rightarrow> string \<Rightarrow> string" where
  "path_join2 path b =
     (if b \<noteq> [] \<and> hd b = CHR ''/'' then b
      else if path = [] \<or> last path = CHR ''/'' then path @ b
      else path @ ''/'' @ b)"

definition os_path_join :: "string \<Rightarrow> string list \<Rightarrow> string" where
  "os_path_join a p = foldl path_join2 a p"

text \<open>
  \<^verbatim>\<open>get_frames_for_sample\<close>. The directory listing \<^verbatim>\<open>glob.glob\<close> is the parameter
  \<open>glob\<close>; its result is sorted.
\<close>

definition get_frames_for_sample :: "(string \<Rightarrow> string list) \<Rightarrow> row \<Rightarrow> error + string list" where
  "get_frames_for_sample glob sample =
     (case py_nth sample 0 of
        Inl e \<Rightarrow> Inl e
      | Inr s0 \<Rightarrow>
          (case py_nth sample 1 of
             Inl e \<Rightarrow> Inl e
           | Inr s1 \<Rightarrow>
               (case py_nth sample 2 of
                  Inl e \<Rightarrow> Inl e
                | Inr s2 \<Rightarrow>
                    Inr (sort (glob (os_path_join ''datasets''
                                       [''ucf101'', s0, s1, s2 @ ''*jpg'']))))))"

text \<open>
  \<^verbatim>\<open>build_image_sequence\<close>. The decoder \<^verbatim>\<open>utils.processor.process_image\<close> is not part
  of the sources; it is the parameter \<open>process_image\<close>, which may raise.
\<close>

fun image_sequence :: "(string \<Rightarrow> int list \<Rightarrow> error + 'img) \<Rightarrow> int list \<Rightarrow> string list \<Rightarrow> error + 'img list" where
  "image_sequence process_image shape [] = Inr []"
| "image_sequence process_image shape (x # frames) =
     (case process_image x shape of
        Inl e \<Rightarrow> Inl e
      | Inr img \<Rightarrow>
          (case image_sequence process_image shape frames of
             Inl e \<Rightarrow> Inl e
           | Inr imgs \<Rightarrow> Inr (img # imgs)))"

definition build_image_sequence ::
  "(string \<Rightarrow> int list \<Rightarrow> error + 'img) \<Rightarrow> DataSet \<Rightarrow> string list \<Rightarrow> error + 'img list" where
  "build_image_sequence process_image self frames =
     image_sequence process_image (image_shape self) frames"

section \<open>The batch generator\<close>

text \<open>
  \<^verbatim>\<open>random.sample(population, k)\<close>, as the standard library draws from a pool: the
  \<open>i\<close>-th draw takes position \<open>j = randbelow(m)\<close> of the \<open>m\<close> entries still in the pool
  and moves the last of them into the hole. The random source is the parameter \<open>rnd\<close>,
  \<open>randbelow(m)\<close> at draw \<open>i\<close> being \<open>rnd i mod m\<close>.
\<close>

fun sample_pool :: "(nat \<Rightarrow> nat) \<Rightarrow> nat \<Rightarrow> 'a list \<Rightarrow> nat \<Rightarrow> nat \<Rightarrow> 'a list" where
  "sample_pool rnd i pool m 0 = []"
| "sample_pool rnd i pool m (Suc r) =
     (let j = rnd i mod m
      in pool ! j # sample_pool rnd (Suc i) (pool[j := pool ! (m - 1)]) (m - 1) r)"

definition random_sample :: "(nat \<Rightarrow> nat) \<Rightarrow> 'a list \<Rightarrow> int \<Rightarrow> error + 'a list" where
  "random_sample rnd population k =
     (if \<not> (0 \<le> k \<and> k \<le> int (length population)) then Inl ValueError
      else Inr (sample_pool rnd 0 population (length population) (nat k)))"

text \<open>\<^verbatim>\<open>np.zeros(shape)\<close> raises for a negative dimension.\<close>

definition np_zeros_ok :: "int list \<Rightarrow> bool" where
  "np_zeros_ok shape = list_all (\<lambda>d. 0 \<le> d) shape"

text \<open>
  The \<^verbatim>\<open>for\<close> loop over the drawn samples: each sample gives one row of \<open>x\<close> (its
  image sequence) and one row of \<open>y\<close> (its one-hot label). A failure aborts the batch.
\<close>

fun fill_batch ::
  "(string \<Rightarrow> string list) \<Rightarrow> (string \<Rightarrow> int list \<Rightarrow> error + 'img) \<Rightarrow> DataSet \<Rightarrow> row list \<Rightarrow>
   error + ('img list \<times> nat list) list" where
  "fill_batch glob process_image self [] = Inr []"
| "fill_batch glob process_image self (sample # rest) =
     (case get_frames_for_sample glob sample of
        Inl e \<Rightarrow> Inl e
      | Inr frames \<Rightarrow>
          (case rescale_list frames (seq_length self) of
             Inl e \<Rightarrow> Inl e
           | Inr sampled_frames \<Rightarrow>
               (case build_image_sequence process_image self sampled_frames of
                  Inl e \<Rightarrow> Inl e
                | Inr sequence \<Rightarrow>
                    (case py_nth sample 1 of
                       Inl e \<Rightarrow> Inl e
                     | Inr class_str \<Rightarrow>
                         (case get_class_one_hot self class_str of
                            Inl e \<Rightarrow> Inl e
                          | Inr label_hot \<Rightarrow>
                              (case fill_batch glob process_image self rest of
                                 Inl e \<Rightarrow> Inl e
                               | Inr rows \<Rightarrow> Inr ((sequence, label_hot) # rows)))))))"

text \<open>
  One turn of the \<^verbatim>\<open>while 1\<close> loop of \<^verbatim>\<open>frame_generator\<close>, up to the \<^verbatim>\<open>yield\<close>: the
  two \<^verbatim>\<open>np.zeros\<close>, the draw, the loop over the samples. The result is the pair
  \<open>(x, y)\<close>, row by row. The local \<^verbatim>\<open>data\<close> of the source, the resolved partition, is
  \<open>part\<close> here.
\<close>

definition next_batch ::
  "(string \<Rightarrow> string list) \<Rightarrow> (string \<Rightarrow> int list \<Rightarrow> error + 'img) \<Rightarrow> (nat \<Rightarrow> nat) \<Rightarrow>
   DataSet \<Rightarrow> int \<Rightarrow> row list \<Rightarrow> error + ('img list list \<times> nat list list)" where
  "next_batch glob process_image rnd self batch_size part =
     (if \<not> np_zeros_ok (batch_size # seq_length self # image_shape self) then Inl ValueError
      else if \<not> np_zeros_ok [batch_size, int (length (classes self))] then Inl ValueError
      else
        (case random_sample rnd part batch_size of
           Inl e \<Rightarrow> Inl e
         | Inr samples \<Rightarrow>
             (case fill_batch glob process_image self samples of
                Inl e \<Rightarrow> Inl e
              | Inr rows \<Rightarrow> Inr (map fst rows, map snd rows))))"

text \<open>
  The generator object. Calling \<^verbatim>\<open>frame_generator(batch_size, train_test)\<close> runs none
  of its body: it returns a generator that holds the arguments (\<open>Created\<close>). The first
  \<^verbatim>\<open>next\<close> runs the prologue (the split and the choice of the partition) and the
  first turn of the loop; afterwards the generator is suspended at \<^verbatim>\<open>yield\<close> with the
  local \<^verbatim>\<open>data\<close> (\<open>Suspended\<close>). An exception closes it. The wrapper
  \<^verbatim>\<open>threadsafe_iterator\<close> only takes a lock around \<^verbatim>\<open>next\<close>.
\<close>

datatype generator =
    Created DataSet int string
  | Suspended DataSet int "row list"
  | Closed

definition frame_generator :: "DataSet \<Rightarrow> int \<Rightarrow> string \<Rightarrow> generator" where
  "frame_generator self batch_size train_test = Created self batch_size train_test"

text \<open>The partition the prologue binds to \<^verbatim>\<open>data\<close>.\<close>

definition resolve_partition :: "DataSet \<Rightarrow> string \<Rightarrow> error + row list" where
  "resolve_partition self train_test =
     (case split_train_test self of
        Inl e \<Rightarrow> Inl e
      | Inr (train, test) \<Rightarrow> Inr (if train_test = ''train'' then train else test))"

definition loop_turn ::
  "(string \<Rightarrow> string list) \<Rightarrow> (string \<Rightarrow> int list \<Rightarrow> error + 'img) \<Rightarrow> (nat \<Rightarrow> nat) \<Rightarrow>
   DataSet \<Rightarrow> int \<Rightarrow> row list \<Rightarrow> (error + ('img list list \<times> nat list list)) \<times> generator" where
  "loop_turn glob process_image rnd self batch_size part =
     (case next_batch glob process_image rnd self batch_size part of
        Inl e \<Rightarrow> (Inl e, Closed)
      | Inr xy \<Rightarrow> (Inr xy, Suspended self batch_size part))"

definition generator_next ::
  "(string \<Rightarrow> string list) \<Rightarrow> (string \<Rightarrow> int list \<Rightarrow> error + 'img) \<Rightarrow> (nat \<Rightarrow> nat) \<Rightarrow>
   generator \<Rightarrow> (error + ('img list list \<times> nat list list)) \<times> generator" where
  "generator_next glob process_image rnd g =
     (case g of
        Created self batch_size train_test \<Rightarrow>
          (case resolve_partition self train_test of
             Inl e \<Rightarrow> (Inl e, Closed)
           | Inr part \<Rightarrow> loop_turn glob process_image rnd self batch_size part)
      | Suspended self batch_size part \<Rightarrow>
          loop_turn glob process_image rnd self batch_size part
      | Closed \<Rightarrow> (Inl StopIteration, Closed))"

section \<open>Ranking a prediction\<close>

text \<open>
  \<^verbatim>\<open>d[k] = v\<close> on a dictionary, kept as the list of its items in insertion order: a key
  already present keeps its place.
\<close>

fun dict_set :: "'k \<Rightarrow> 'v \<Rightarrow> ('k \<times> 'v) list \<Rightarrow> ('k \<times> 'v) list" where
  "dict_set k v [] = [(k, v)]"
| "dict_set k v (kv # kvs) = (if fst kv = k then (k, v) # kvs else kv # dict_set k v kvs)"

text \<open>\<^verbatim>\<open>for i, label in enumerate(data.classes): label_predictions[label] = predictions[i]\<close>\<close>

fun label_predictions ::
  "string list \<Rightarrow> 'a list \<Rightarrow> nat \<Rightarrow> (string \<times> 'a) list \<Rightarrow> error + (string \<times> 'a) list" where
  "label_predictions [] predictions i d = Inr d"
| "label_predictions (label # rest) predictions i d =
     (case py_nth predictions i of
        Inl e \<Rightarrow> Inl e
      | Inr p \<Rightarrow> label_predictions rest predictions (Suc i) (dict_set label p d))"

text \<open>
  \<^verbatim>\<open>sorted(items, key=operator.itemgetter(1), reverse=True)\<close> on scores that are
  totally ordered: descending by score, and stable, items with equal scores staying in
  their original order. (A score list holding NaN is not totally ordered; there the
  result of the built-in is whatever its \<^verbatim>\<open><\<close> comparisons lead to.)
\<close>

definition sorted_lps :: "('k \<times> 'a::linorder) list \<Rightarrow> ('k \<times> 'a) list" where
  "sorted_lps items = rev (sort_key snd (rev items))"

text \<open>The printing loop: the lines printed before the \<^verbatim>\<open>break\<close>, as (label, score).\<close>

fun print_top :: "nat \<Rightarrow> int \<Rightarrow> ('k \<times> 'a::zero) list \<Rightarrow> ('k \<times> 'a) list" where
  "print_top i nb_to_return [] = []"
| "print_top i nb_to_return (class_prediction # rest) =
     (if int i > nb_to_return - 1 \<or> snd class_prediction = 0 then []
      else class_prediction # print_top (Suc i) nb_to_return rest)"

text \<open>
  The global namespace of the module, as far as it binds names to catalogs. The module
  binds its imports, \<^verbatim>\<open>threadsafe_iterator\<close>, \<^verbatim>\<open>threadsafe_generator\<close> and the class
  \<^verbatim>\<open>DataSet\<close>; it binds no name \<^verbatim>\<open>data\<close> (the only assignments to \<^verbatim>\<open>data\<close> are
  locals of \<^verbatim>\<open>get_data\<close> and \<^verbatim>\<open>frame_generator\<close>, and the attribute
  \<^verbatim>\<open>self.data\<close>), and \<^verbatim>\<open>data\<close> is no built-in.
\<close>

definition producer_globals :: "string \<rightharpoonup> DataSet" where
  "producer_globals = Map.empty"

text \<open>
  \<^verbatim>\<open>print_class_from_prediction\<close>, a static method: it has no \<^verbatim>\<open>self\<close> and reads the
  global name \<^verbatim>\<open>data\<close>, looked up in the namespace \<open>globals\<close> when the loop header
  \<^verbatim>\<open>enumerate(data.classes)\<close> is evaluated, before \<^verbatim>\<open>predictions\<close> is read; an
  unbound name raises \<^verbatim>\<open>NameError\<close>. The built-in \<^verbatim>\<open>sorted\<close> with its key and
  \<^verbatim>\<open>reverse=True\<close> is the parameter \<open>py_sorted\<close> (\<open>sorted_lps\<close> for totally ordered
  scores), so scores are of any type with a zero. The result is the list of the lines
  printed; \<^verbatim>\<open>nb_to_return\<close> defaults to \<open>5\<close> in the source and is explicit here.
\<close>

definition print_class_from_prediction ::
  "(string \<rightharpoonup> DataSet) \<Rightarrow> ((string \<times> 'a) list \<Rightarrow> (string \<times> 'a) list) \<Rightarrow> 'a list \<Rightarrow> int \<Rightarrow>
   error + (string \<times> 'a::zero) list" where
  "print_class_from_prediction globals py_sorted predictions nb_to_return =
     (case globals ''data'' of
        None \<Rightarrow> Inl NameError
      | Some data_global \<Rightarrow>
          (case label_predictions (classes data_global) predictions 0 [] of
             Inl e \<Rightarrow> Inl e
           | Inr d \<Rightarrow> Inr (print_top 0 nb_to_return (py_sorted d))))"

section \<open>Example data\<close>

text \<open>
  The conversion on plain decimal numerals, an instance of the parameter \<open>py_int\<close>, and
  a small manifest with the catalog built from it (sequence length \<open>40\<close>, class limit
  \<open>2\<close>).
\<close>

fun decimal :: "nat \<Rightarrow> string \<Rightarrow> nat option" where
  "decimal acc [] = Some acc"
| "decimal acc (c # cs) =
     (if CHR ''0'' \<le> c \<and> c \<le> CHR ''9''
      then decimal (10 * acc + (of_char c - of_char CHR ''0'')) cs else None)"

definition int_decimal :: "string \<Rightarrow> int option" where
  "int_decimal s = (if s = [] then None else map_option int (decimal 0 s))"


definition manifest_example :: "row list" where
  "manifest_example =
     [[''train'', ''b'', ''v1'', ''50''],
      [''test'', ''a'', ''v2'', ''10''],
      [''train'', ''c'', ''v3'', ''400''],
      [''test'', ''b'', ''v4'', ''300'']]"

definition catalog_example :: DataSet where
  "catalog_example =
     \<lparr>seq_length = 40, class_limit = Some 2, max_frames = 300,
      data = [[''train'', ''b'', ''v1'', ''50''], [''test'', ''b'', ''v4'', ''300'']],
      classes = [''a'', ''b''], image_shape = [80, 80, 3]\<rparr>"


text \<open>
  A catalog with two train rows for the generator, a directory listing that returns three
  frames in no particular order, a decoder that returns the path itself, and a catalog
  without rows.
\<close>

definition batch_catalog :: DataSet where
  "batch_catalog =
     \<lparr>seq_length = 2, class_limit = None, max_frames = 300,
      data = [[''train'', ''a'', ''v1'', ''3''], [''train'', ''b'', ''v2'', ''3'']],
      classes = [''a'', ''b''], image_shape = [1]\<rparr>"

definition glob_example :: "string \<Rightarrow> string list" where
  "glob_example path = [''f3'', ''f1'', ''f2'']"

definition decode_example :: "string \<Rightarrow> int list \<Rightarrow> error + string" where
  "decode_example path shape = Inr path"

definition empty_catalog :: DataSet where
  "empty_catalog =
     \<lparr>seq_length = 2, class_limit = None, max_frames = 300, data = [],
      classes = [''a'', ''b''], image_shape = [1]\<rparr>"

text \<open>A catalog with a vocabulary of four labels, for the ranking.\<close>

definition ranking_catalog :: DataSet where
  "ranking_catalog =
     \<lparr>seq_length = 2, class_limit = None, max_frames = 300, data = [],
      classes = [''a'', ''b'', ''c'', ''d''], image_shape = [1]\<rparr>"

section \<open>Facts about ranges and slices\<close>

lemma py_range_pos_unfold:
  "0 < step \<Longrightarrow> start < stop \<Longrightarrow>
   py_range start stop step = start # py_range (start + step) stop step"
  by (subst py_range.simps) simp

lemma py_range_empty:
  "0 < step \<Longrightarrow> stop \<le> start \<Longrightarrow> py_range start stop step = []"
  by (subst py_range.simps) simp

lemma py_range_neg_from_zero:
  "step < 0 \<Longrightarrow> 0 \<le> stop \<Longrightarrow> py_range 0 stop step = []"
  by (subst py_range.simps) simp

lemma py_range_bounds:
  "0 < step \<Longrightarrow> i \<in> set (py_range start stop step) \<Longrightarrow> start \<le> i \<and> i < stop"
proof (induction start stop step rule: py_range.induct)
  case (1 start stop step)
  show ?case
  proof (cases "start < stop")
    case True
    with 1 show ?thesis
      by (subst (asm) (2) py_range.simps) (auto split: if_splits)
  next
    case False
    with "1.prems" show ?thesis
      by (simp add: py_range_empty)
  qed
qed


lemma mult_step_lt: "0 < step \<Longrightarrow> int n * step < stop - start \<Longrightarrow> start < stop" for step :: int
proof -
  assume a: "0 < step" "int n * step < stop - start"
  have "0 \<le> int n * step" using a(1) by simp
  with a(2) show ?thesis by linarith
qed

lemma map_upt_shift: "start # map (\<lambda>k. start + step + int k * step) [0..<n] = map (\<lambda>k. start + int k * step) [0..<Suc n]"
proof -
  have "[0..<Suc n] = 0 # map Suc [0..<n]"
    by (simp add: upt_conv_Cons map_Suc_upt del: upt_Suc)
  then show ?thesis by (simp add: algebra_simps comp_def del: upt_Suc)
qed

lemma take_py_range:
  "0 < step \<Longrightarrow> (n = 0 \<or> int (n - 1) * step < stop - start) \<Longrightarrow>
   take n (py_range start stop step) = map (\<lambda>k. start + int k * step) [0..<n]"
proof (induction n arbitrary: start)
  case 0
  show ?case by simp
next
  case (Suc n)
  from Suc.prems have lt: "start < stop"
    using mult_step_lt [of step n stop start] by simp
  have side: "n = 0 \<or> int (n - 1) * step < stop - (start + step)"
  proof (cases n)
    case 0
    then show ?thesis by simp
  next
    case (Suc m)
    with Suc.prems(2) have "int (Suc m) * step < stop - start" by simp
    then have "int m * step + step < stop - start" by (simp add: algebra_simps)
    then show ?thesis using Suc by simp
  qed
  have "take (Suc n) (py_range start stop step) =
        start # take n (py_range (start + step) stop step)"
    using Suc.prems(1) lt by (simp add: py_range_pos_unfold)
  also have "\<dots> = start # map (\<lambda>k. start + step + int k * step) [0..<n]"
    using Suc.IH [OF Suc.prems(1) side] by simp
  also have "\<dots> = map (\<lambda>k. start + int k * step) [0..<Suc n]"
    by (rule map_upt_shift)
  finally show ?case .
qed

lemma py_slice_to_nonneg: "0 \<le> n \<Longrightarrow> py_slice_to xs n = take (nat n) xs"
  by (simp add: py_slice_to_def)

lemma rescale_list_pos:
  assumes "0 < sz" "sz \<le> int (length xs)"
  shows "rescale_list xs sz =
         Inr (map (\<lambda>k. xs ! (k * (length xs div nat sz))) [0..<nat sz])"
proof -
  define L where "L = int (length xs)"
  define skip where "skip = L div sz"
  have skip_pos: "0 < skip"
    using assms unfolding skip_def L_def by (simp add: pos_imp_zdiv_pos_iff)
  have "skip * sz \<le> L"
  proof -
    have "L = sz * (L div sz) + L mod sz" by simp
    moreover have "0 \<le> L mod sz" using assms(1) by simp
    ultimately have "sz * (L div sz) \<le> L" by linarith
    then show ?thesis unfolding skip_def by (simp add: mult.commute)
  qed
  have skip_nat: "nat skip = length xs div nat sz"
    unfolding skip_def L_def by (simp add: nat_div_distrib)
  have enough: "nat sz = 0 \<or> int (nat sz - 1) * skip < L - 0"
  proof -
    have "(sz - 1) * skip < sz * skip" using skip_pos by simp
    also have "\<dots> \<le> L" using \<open>skip * sz \<le> L\<close> by (simp add: mult.commute)
    finally show ?thesis using assms(1) by (simp add: nat_diff_distrib')
  qed
  have "take (nat sz) (py_range 0 L skip) = map (\<lambda>k. 0 + int k * skip) [0..<nat sz]"
    by (rule take_py_range [OF skip_pos enough])
  then have "take (nat sz) (map (\<lambda>i. xs ! nat i) (py_range 0 L skip)) =
        map (\<lambda>k. xs ! nat (int k * skip)) [0..<nat sz]"
    by (simp add: take_map comp_def)
  moreover have "nat (int k * skip) = k * (length xs div nat sz)" for k
    using skip_pos skip_nat by (simp add: nat_mult_distrib)
  ultimately have "take (nat sz) (map (\<lambda>i. xs ! nat i) (py_range 0 L skip)) =
        map (\<lambda>k. xs ! (k * (length xs div nat sz))) [0..<nat sz]"
    by simp
  then show ?thesis
    using assms skip_pos
    unfolding rescale_list_def Let_def L_def [symmetric] skip_def [symmetric]
    by (simp add: py_slice_to_nonneg)
qed


lemma rescale_list_assert:
  "int (length xs) < sz \<Longrightarrow> rescale_list xs sz = Inl AssertionError"
  by (simp add: rescale_list_def)

lemma rescale_list_zero:
  "rescale_list xs 0 = Inl ZeroDivisionError"
  by (simp add: rescale_list_def)

section \<open>Rescale\<close>

text \<open>
  C1 (as amended). For every input list of length \<open>L\<close> and every target length
  \<open>sz \<ge> 1\<close>, \<open>rescale_list\<close> fails (the assertion) when \<open>L < sz\<close>, and otherwise
  returns exactly \<open>sz\<close> elements, the \<open>k\<close>-th of them being the input element at index
  \<open>k * skip\<close> with \<open>skip = L div sz\<close>: the elements at indices \<open>0, skip, 2 * skip, \<dots>\<close>
  cut to the first \<open>sz\<close> entries.
\<close>

theorem rescale_list_every_skip:
  "0 < sz \<Longrightarrow>
   rescale_list xs sz =
     (if int (length xs) < sz then Inl AssertionError
      else Inr (map (\<lambda>k. xs ! (k * (length xs div nat sz))) [0..<nat sz]))"
  by (simp add: rescale_list_assert rescale_list_pos)

text \<open>The theorem at \<open>L = 23\<close>, \<open>sz = 5\<close>: indices \<open>0, 4, 8, 12, 16\<close>.\<close>

theorem rescale_list_every_skip_witness:
  "(0::int) < 5 \<and> rescale_list [0..<23] 5 = Inr [0, 4, 8, 12, 16]"
  using rescale_list_every_skip [of 5 "[0..<23]"] by (simp add: upt_rec)

text \<open>
  The claim as written covers every target length. At target length \<open>0\<close> the list is
  not shorter than the target, yet the floor division raises.
\<close>

theorem rescale_list_zero_size_counterexample:
  "\<not> int (length [1::nat, 2, 3]) < 0 \<and>
   rescale_list [1::nat, 2, 3] 0 = Inl ZeroDivisionError"
  by (simp add: rescale_list_zero)

text \<open>The two examples of the specification, with the candidate indices before the cut.\<close>

lemma rescale_list_25_5:
  "rescale_list [0..<25] 5 = Inr [0, 5, 10, 15, 20]"
  by (simp add: rescale_list_pos upt_rec)

lemma py_range_23_candidates:
  "py_range 0 23 (23 div 5) = [0, 4, 8, 12, 16, 20]"
  by (simp add: py_range.simps)

lemma rescale_list_23_5:
  "rescale_list [0..<23] 5 = Inr (take 5 [0, 4, 8, 12, 16, 20])"
  by (simp add: rescale_list_pos upt_rec)

text \<open>
  C9 (as amended). For every non-empty list whose length equals the target size,
  \<open>rescale_list\<close> returns the input list unchanged; the step is \<open>1\<close>.
\<close>

theorem rescale_list_same_length:
  "xs \<noteq> [] \<Longrightarrow>
   rescale_list xs (int (length xs)) = Inr xs \<and> int (length xs) div int (length xs) = 1"
proof -
  assume ne: "xs \<noteq> []"
  then have pos: "0 < int (length xs)" by simp
  have one: "length xs div length xs = 1" using ne by simp
  have "rescale_list xs (int (length xs)) =
        Inr (map (\<lambda>k. xs ! (k * (length xs div nat (int (length xs))))) [0..<nat (int (length xs))])"
    by (rule rescale_list_pos [OF pos]) simp
  also have "\<dots> = Inr (map (\<lambda>k. xs ! k) [0..<length xs])"
    using one by simp
  also have "\<dots> = Inr xs" by (simp add: map_nth)
  finally show ?thesis using ne by simp
qed

theorem rescale_list_same_length_witness:
  "[''a'', ''b'', ''c''] \<noteq> [] \<and> rescale_list [''a'', ''b'', ''c''] 3 = Inr [''a'', ''b'', ''c'']"
  using rescale_list_same_length [of "[''a'', ''b'', ''c'']"] by simp

text \<open>
  The empty list has length equal to the target size \<open>0\<close>, and there the division
  \<open>0 // 0\<close> raises: nothing is returned.
\<close>

theorem rescale_list_empty_counterexample:
  "rescale_list ([] :: string list) (int (length ([] :: string list))) = Inl ZeroDivisionError"
  by (simp add: rescale_list_zero)

section \<open>Facts about the catalog functions\<close>

lemma item_classes_Inr:
  "item_classes rows = Inr ls \<Longrightarrow> ls = map (\<lambda>r. r ! 1) rows \<and> list_all (\<lambda>r. 2 \<le> length r) rows"
  by (induction rows arbitrary: ls) (auto simp: py_nth_def split: sum.splits if_splits)

lemma item_classes_total:
  "list_all (\<lambda>r. 2 \<le> length r) rows \<Longrightarrow> item_classes rows = Inr (map (\<lambda>r. r ! 1) rows)"
  by (induction rows) (auto simp: py_nth_def)

lemma py_filter_Inr:
  "py_filter f xs = Inr ys \<Longrightarrow> ys = filter (\<lambda>x. f x = Inr True) xs \<and> list_all (\<lambda>x. \<exists>b. f x = Inr b) xs"
  by (induction xs arbitrary: ys) (auto split: sum.splits if_splits)

lemma py_filter_total:
  "list_all (\<lambda>x. \<exists>b. f x = Inr b) xs \<Longrightarrow> py_filter f xs = Inr (filter (\<lambda>x. f x = Inr True) xs)"
  by (induction xs) (auto split: sum.splits)

lemma py_slice_to_prefix: "prefix (py_slice_to xs n) xs"
  by (simp add: py_slice_to_def take_is_prefix)

lemma sorted_py_slice_to: "sorted xs \<Longrightarrow> sorted (py_slice_to xs n)"
  by (simp add: py_slice_to_def sorted_wrt_take)

lemma distinct_py_slice_to: "distinct xs \<Longrightarrow> distinct (py_slice_to xs n)"
  by (simp add: py_slice_to_def)

lemma get_classes_Inr:
  assumes "get_classes self = Inr cs"
  shows "list_all (\<lambda>r. 2 \<le> length r) (data self)"
    and "cs = (case class_limit self of
                 None \<Rightarrow> sort (remdups (map (\<lambda>r. r ! 1) (data self)))
               | Some n \<Rightarrow> py_slice_to (sort (remdups (map (\<lambda>r. r ! 1) (data self)))) n)"
  using assms
  by (auto simp: get_classes_def Let_def dest: item_classes_Inr split: sum.splits option.splits)


lemma DataSet_init_Inr:
  assumes "DataSet_init py_int raw sl nb shape = Inr ds"
  shows "seq_length ds = sl" and "class_limit ds = nb" and "max_frames ds = 300"
    and "image_shape ds = shape"
    and "get_classes \<lparr>seq_length = sl, class_limit = nb, max_frames = 300, data = raw,
           classes = [], image_shape = shape\<rparr> = Inr (classes ds)"
    and "clean_data py_int \<lparr>seq_length = sl, class_limit = nb, max_frames = 300, data = raw,
           classes = classes ds, image_shape = shape\<rparr> = Inr (data ds)"
  using assms
  by (auto simp: DataSet_init_def Let_def split: sum.splits)

lemma sample_filter_Inr:
  "sample_filter py_int self x = Inr b \<Longrightarrow>
   4 \<le> length x \<and> (\<exists>n. py_int (x ! 3) = Some n \<and>
     b = (seq_length self \<le> n \<and> n \<le> max_frames self \<and> x ! 1 \<in> set (classes self)))"
  by (auto simp: sample_filter_def py_nth_def split: sum.splits option.splits if_splits)

lemma sample_filter_total:
  "4 \<le> length x \<Longrightarrow> py_int (x ! 3) = Some n \<Longrightarrow>
   sample_filter py_int self x =
     Inr (seq_length self \<le> n \<and> n \<le> max_frames self \<and> x ! 1 \<in> set (classes self))"
  by (auto simp: sample_filter_def py_nth_def)

lemma clean_data_Inr:
  assumes "clean_data py_int self = Inr d"
  shows "d = filter (\<lambda>x. case py_int (x ! 3) of None \<Rightarrow> False
                 | Some n \<Rightarrow> seq_length self \<le> n \<and> n \<le> max_frames self \<and> x ! 1 \<in> set (classes self))
               (data self)"
    and "list_all (\<lambda>x. 4 \<le> length x \<and> py_int (x ! 3) \<noteq> None) (data self)"
proof -
  from assms have f: "d = filter (\<lambda>x. sample_filter py_int self x = Inr True) (data self)"
    and ok: "list_all (\<lambda>x. \<exists>b. sample_filter py_int self x = Inr b) (data self)"
    using py_filter_Inr [of "sample_filter py_int self" "data self" d]
    by (simp_all add: clean_data_def)
  show "list_all (\<lambda>x. 4 \<le> length x \<and> py_int (x ! 3) \<noteq> None) (data self)"
    using ok by (auto simp: list_all_iff dest!: sample_filter_Inr)
  have "(sample_filter py_int self x = Inr True) =
        (case py_int (x ! 3) of None \<Rightarrow> False
         | Some n \<Rightarrow> seq_length self \<le> n \<and> n \<le> max_frames self \<and> x ! 1 \<in> set (classes self))"
    if "x \<in> set (data self)" for x
  proof -
    from ok that obtain b where b: "sample_filter py_int self x = Inr b"
      by (auto simp: list_all_iff)
    from sample_filter_Inr [OF b] show ?thesis using b by auto
  qed
  with f show "d = filter (\<lambda>x. case py_int (x ! 3) of None \<Rightarrow> False
                 | Some n \<Rightarrow> seq_length self \<le> n \<and> n \<le> max_frames self \<and> x ! 1 \<in> set (classes self))
               (data self)"
    by (simp cong: filter_cong)
qed

lemma clean_data_total:
  assumes "list_all (\<lambda>x. 4 \<le> length x \<and> py_int (x ! 3) \<noteq> None) (data self)"
  shows "\<exists>d. clean_data py_int self = Inr d"
proof -
  have "list_all (\<lambda>x. \<exists>b. sample_filter py_int self x = Inr b) (data self)"
    using assms by (auto simp: list_all_iff sample_filter_total)
  from py_filter_total [OF this] show ?thesis by (simp add: clean_data_def)
qed

lemma get_classes_total:
  assumes "list_all (\<lambda>r. 2 \<le> length r) (data self)"
  shows "\<exists>cs. get_classes self = Inr cs"
  using item_classes_total [OF assms]
  by (simp add: get_classes_def Let_def split: option.splits)

lemma DataSet_init_total:
  assumes "list_all (\<lambda>x. 4 \<le> length x \<and> py_int (x ! 3) \<noteq> None) raw"
  shows "\<exists>ds. DataSet_init py_int raw sl nb shape = Inr ds"
proof -
  let ?self0 = "\<lparr>seq_length = sl, class_limit = nb, max_frames = 300, data = raw,
                  classes = [], image_shape = shape\<rparr>"
  have "list_all (\<lambda>r. 2 \<le> length r) (data ?self0)"
    using assms by (auto simp: list_all_iff)
  from get_classes_total [OF this] obtain cs where cs: "get_classes ?self0 = Inr cs" ..
  have "list_all (\<lambda>x. 4 \<le> length x \<and> py_int (x ! 3) \<noteq> None) (data (?self0\<lparr>classes := cs\<rparr>))"
    using assms by simp
  from clean_data_total [OF this] obtain d
    where "clean_data py_int (?self0\<lparr>classes := cs\<rparr>) = Inr d" ..
  with cs show ?thesis by (simp add: DataSet_init_def)
qed

lemma catalog_example_init:
  "DataSet_init int_decimal manifest_example 40 (Some 2) [80, 80, 3] = Inr catalog_example"
  by (simp add: DataSet_init_def get_classes_def clean_data_def sample_filter_def py_nth_def
      py_slice_to_def int_decimal_def manifest_example_def catalog_example_def)

section \<open>The catalog\<close>

text \<open>
  C2. For every raw sample set from which the catalog is built, the class vocabulary is
  sorted lexicographically and has no duplicates; it is a prefix of the sorted list of
  the distinct labels of the raw rows (the rows as loaded, before filtering): the whole
  list when no class limit is set, its first \<open>n\<close> entries for a class limit \<open>n \<ge> 0\<close>
  (a negative limit is Python's slice from the end, still a prefix).
\<close>

theorem class_vocabulary:
  assumes "DataSet_init py_int raw sl nb shape = Inr ds"
  shows "sorted (classes ds) \<and> distinct (classes ds) \<and>
         prefix (classes ds) (sorted_list_of_set ((\<lambda>r. r ! 1) ` set raw)) \<and>
         (case nb of
            None \<Rightarrow> classes ds = sorted_list_of_set ((\<lambda>r. r ! 1) ` set raw)
          | Some n \<Rightarrow>
              classes ds =
                (if 0 \<le> n then take (nat n) (sorted_list_of_set ((\<lambda>r. r ! 1) ` set raw))
                 else take (length (sorted_list_of_set ((\<lambda>r. r ! 1) ` set raw)) - nat (- n))
                        (sorted_list_of_set ((\<lambda>r. r ! 1) ` set raw))))"
proof -
  let ?full = "sorted_list_of_set ((\<lambda>r. r ! 1) ` set raw)"
  have full: "sort (remdups (map (\<lambda>r. r ! 1) raw)) = ?full"
    by (simp add: sorted_list_of_set_sort_remdups [symmetric])
  have cs: "classes ds = (case nb of None \<Rightarrow> ?full | Some n \<Rightarrow> py_slice_to ?full n)"
    using get_classes_Inr(2) [OF DataSet_init_Inr(5) [OF assms]] full
    by (simp cong: option.case_cong)
  have "sorted ?full" and "distinct ?full" by simp_all
  then have "sorted (classes ds)" and "distinct (classes ds)"
    using cs by (auto simp: sorted_py_slice_to distinct_py_slice_to split: option.splits)
  moreover have "prefix (classes ds) ?full"
    using cs by (auto simp: py_slice_to_prefix split: option.splits)
  ultimately show ?thesis
    using cs by (auto simp: py_slice_to_def split: option.splits)
qed

theorem class_vocabulary_witness:
  "DataSet_init int_decimal manifest_example 40 (Some 2) [80, 80, 3] = Inr catalog_example \<and>
   sorted (classes catalog_example) \<and> distinct (classes catalog_example) \<and>
   classes catalog_example = [''a'', ''b''] \<and>
   prefix (classes catalog_example) (sorted_list_of_set ((\<lambda>r. r ! 1) ` set manifest_example))"
proof -
  from class_vocabulary [OF catalog_example_init]
  have "sorted (classes catalog_example) \<and> distinct (classes catalog_example) \<and>
        prefix (classes catalog_example) (sorted_list_of_set ((\<lambda>r. r ! 1) ` set manifest_example))"
    by blast
  moreover have "classes catalog_example = [''a'', ''b'']"
    by (simp add: catalog_example_def)
  ultimately show ?thesis using catalog_example_init by blast
qed

text \<open>
  Label \<open>a\<close> is in the vocabulary of the example although no row of class \<open>a\<close>
  passes the filter: the vocabulary comes from the raw rows.
\<close>

lemma vocabulary_keeps_filtered_out_class:
  "''a'' \<in> set (classes catalog_example) \<and> ''a'' \<notin> (\<lambda>r. r ! 1) ` set (data catalog_example)"
  by (simp add: catalog_example_def)

text \<open>
  C3. For every raw sample set from which the catalog is built, a row is in the
  filtered sample set if and only if it is a raw row, its frame count \<open>n\<close> satisfies
  \<open>seq_length \<le> n \<le> max_frames\<close>, and its class label is in the class vocabulary;
  \<open>max_frames\<close> is \<open>300\<close>. The filtered set is the raw list filtered by that predicate,
  in the same order.
\<close>

theorem filtered_sample_set:
  assumes "DataSet_init py_int raw sl nb shape = Inr ds"
  shows "max_frames ds = 300 \<and>
         (x \<in> set (data ds) \<longleftrightarrow>
            x \<in> set raw \<and>
            (\<exists>n. py_int (x ! 3) = Some n \<and> seq_length ds \<le> n \<and> n \<le> max_frames ds) \<and>
            x ! 1 \<in> set (classes ds)) \<and>
         data ds =
           filter (\<lambda>x. case py_int (x ! 3) of
                         None \<Rightarrow> False
                       | Some n \<Rightarrow> seq_length ds \<le> n \<and> n \<le> max_frames ds \<and>
                                   x ! 1 \<in> set (classes ds)) raw"
proof -
  note i = DataSet_init_Inr [OF assms]
  from clean_data_Inr(1) [OF i(6)]
  have d: "data ds =
           filter (\<lambda>x. case py_int (x ! 3) of
                         None \<Rightarrow> False
                       | Some n \<Rightarrow> seq_length ds \<le> n \<and> n \<le> max_frames ds \<and>
                                   x ! 1 \<in> set (classes ds)) raw"
    using i(1) i(3) by (simp cong: option.case_cong)
  have "(x \<in> set (data ds)) =
        (x \<in> set raw \<and>
         (\<exists>n. py_int (x ! 3) = Some n \<and> seq_length ds \<le> n \<and> n \<le> max_frames ds) \<and>
         x ! 1 \<in> set (classes ds))"
    by (subst d) (auto split: option.splits)
  with d i(3) show ?thesis by blast
qed

theorem filtered_sample_set_witness:
  "DataSet_init int_decimal manifest_example 40 (Some 2) [80, 80, 3] = Inr catalog_example \<and>
   max_frames catalog_example = 300 \<and>
   [''test'', ''b'', ''v4'', ''300''] \<in> set (data catalog_example) \<and>
   [''test'', ''a'', ''v2'', ''10''] \<notin> set (data catalog_example) \<and>
   [''train'', ''c'', ''v3'', ''400''] \<notin> set (data catalog_example)"
proof -
  note t = filtered_sample_set [OF catalog_example_init]
  have "max_frames catalog_example = 300" using t [of "[]"] by blast
  moreover have "[''test'', ''b'', ''v4'', ''300''] \<in> set (data catalog_example)"
    using t [of "[''test'', ''b'', ''v4'', ''300'']"]
    by (simp add: manifest_example_def int_decimal_def catalog_example_def)
  moreover have "[''test'', ''a'', ''v2'', ''10''] \<notin> set (data catalog_example)"
    using t [of "[''test'', ''a'', ''v2'', ''10'']"]
    by (simp add: manifest_example_def int_decimal_def catalog_example_def)
  moreover have "[''train'', ''c'', ''v3'', ''400''] \<notin> set (data catalog_example)"
    using t [of "[''train'', ''c'', ''v3'', ''400'']"]
    by (simp add: manifest_example_def int_decimal_def catalog_example_def)
  ultimately show ?thesis using catalog_example_init by blast
qed

text \<open>
  C6 (as amended). Construction of the catalog does not check \<open>seq_length\<close>: for
  every manifest whose rows have four columns and a frame count that converts to an
  integer, it succeeds for every integer \<open>seq_length\<close>, also for \<open>seq_length \<le> 0\<close>, and
  stores the value unchanged.
\<close>

theorem init_accepts_every_seq_length:
  assumes "list_all (\<lambda>x. 4 \<le> length x \<and> py_int (x ! 3) \<noteq> None) raw"
  shows "\<exists>ds. DataSet_init py_int raw sl nb shape = Inr ds \<and> seq_length ds = sl"
proof -
  from DataSet_init_total [OF assms] obtain ds
    where ds: "DataSet_init py_int raw sl nb shape = Inr ds" ..
  from DataSet_init_Inr(1) [OF ds] ds show ?thesis by blast
qed

theorem init_accepts_every_seq_length_witness:
  "list_all (\<lambda>x. 4 \<le> length x \<and> int_decimal (x ! 3) \<noteq> None) manifest_example \<and>
   (\<exists>ds. DataSet_init int_decimal manifest_example (- 1) None [80, 80, 3] = Inr ds \<and>
         seq_length ds = - 1)"
proof -
  have wf: "list_all (\<lambda>x. 4 \<le> length x \<and> int_decimal (x ! 3) \<noteq> None) manifest_example"
    by (simp add: manifest_example_def int_decimal_def)
  from init_accepts_every_seq_length [OF wf, of "- 1" None "[80, 80, 3]"] wf
  show ?thesis by blast
qed

text \<open>Construction with \<open>seq_length = 0\<close> returns a catalog: no error is raised.\<close>

theorem init_zero_seq_length_counterexample:
  "(0::int) \<le> 0 \<and>
   DataSet_init int_decimal [[''train'', ''b'', ''v1'', ''50'']] 0 None [80, 80, 3] =
     Inr \<lparr>seq_length = 0, class_limit = None, max_frames = 300,
          data = [[''train'', ''b'', ''v1'', ''50'']], classes = [''b''],
          image_shape = [80, 80, 3]\<rparr>"
  by (simp add: DataSet_init_def get_classes_def clean_data_def sample_filter_def py_nth_def
      int_decimal_def)

section \<open>One-hot labels\<close>

lemma py_index_member:
  "v \<in> set xs \<Longrightarrow> \<exists>i. py_index xs v = Inr i \<and> i < length xs \<and> xs ! i = v \<and> v \<notin> set (take i xs)"
proof (induction xs)
  case Nil
  then show ?case by simp
next
  case (Cons x xs)
  show ?case
  proof (cases "x = v")
    case True
    then show ?thesis by simp
  next
    case False
    with Cons.prems have "v \<in> set xs" by simp
    from Cons.IH [OF this] obtain i
      where "py_index xs v = Inr i" "i < length xs" "xs ! i = v" "v \<notin> set (take i xs)"
      by blast
    with False show ?thesis by simp
  qed
qed

lemma py_index_absent: "v \<notin> set xs \<Longrightarrow> py_index xs v = Inl ValueError"
  by (induction xs) auto

lemma count_one_hot:
  "count_list (map (\<lambda>j. if j = y then 1 else 0) [0..<n]) (1::nat) = (if y < n then 1 else 0)"
  by (induction n) auto

lemma to_categorical_Inr:
  "y < n \<Longrightarrow> \<exists>v. to_categorical y n = Inr v \<and> length v = n \<and> count_list v 1 = 1 \<and>
     v ! y = 1 \<and> set v \<subseteq> {0, 1}"
  using count_one_hot [of y n] by (auto simp: to_categorical_def)

text \<open>
  C4. For every class label that is a member of the class vocabulary, the one-hot
  encoding succeeds and returns a vector whose length is the vocabulary size and that
  holds exactly one entry equal to \<open>1\<close>; the index found for the label leads back to
  the label, \<open>classes ! index = label\<close>, and it is where the \<open>1\<close> stands.
\<close>

theorem one_hot_of_vocabulary_label:
  assumes "class_str \<in> set (classes self)"
  shows "\<exists>i v. py_index (classes self) class_str = Inr i \<and>
               i < length (classes self) \<and> classes self ! i = class_str \<and>
               get_class_one_hot self class_str = Inr v \<and>
               length v = length (classes self) \<and> count_list v 1 = 1 \<and> v ! i = 1"
proof -
  from py_index_member [OF assms] obtain i
    where i: "py_index (classes self) class_str = Inr i" "i < length (classes self)"
      "classes self ! i = class_str"
    by blast
  from to_categorical_Inr [OF i(2)] obtain v
    where v: "to_categorical i (length (classes self)) = Inr v" "length v = length (classes self)"
      "count_list v 1 = 1" "v ! i = 1"
    by blast
  have "get_class_one_hot self class_str = Inr v"
    using i(1) v(1) v(2) by (simp add: get_class_one_hot_def)
  with i v show ?thesis by blast
qed

theorem one_hot_of_vocabulary_label_witness:
  "''b'' \<in> set (classes catalog_example) \<and>
   get_class_one_hot catalog_example ''b'' = Inr [0, 1] \<and>
   py_index (classes catalog_example) ''b'' = Inr 1 \<and>
   classes catalog_example ! 1 = ''b''"
proof -
  have m: "''b'' \<in> set (classes catalog_example)"
    by (simp add: catalog_example_def)
  from one_hot_of_vocabulary_label [OF m] obtain i v
    where "py_index (classes catalog_example) ''b'' = Inr i"
      and "classes catalog_example ! i = ''b''"
      and "get_class_one_hot catalog_example ''b'' = Inr v"
    by blast
  moreover have "py_index (classes catalog_example) ''b'' = Inr 1"
    by (simp add: catalog_example_def)
  moreover have "get_class_one_hot catalog_example ''b'' = Inr [0, 1]"
    by (simp add: catalog_example_def get_class_one_hot_def to_categorical_def upt_rec)
  ultimately show ?thesis using m by simp
qed

lemma get_class_one_hot_unknown:
  "class_str \<notin> set (classes self) \<Longrightarrow> get_class_one_hot self class_str = Inl ValueError"
  by (simp add: get_class_one_hot_def py_index_absent)

section \<open>Partitions\<close>

lemma split_is_nonempty: "x \<noteq> [] \<Longrightarrow> split_is which x = Inr (x ! 0 = which)"
  by (simp add: split_is_def py_nth_def)

lemma py_filter_split_is:
  assumes "list_all (\<lambda>x. x \<noteq> []) rows"
  shows "py_filter (split_is which) rows = Inr (filter (\<lambda>x. x ! 0 = which) rows)"
proof -
  have "list_all (\<lambda>x. \<exists>b. split_is which x = Inr b) rows"
    using assms by (auto simp: list_all_iff split_is_nonempty)
  from py_filter_total [OF this]
  have "py_filter (split_is which) rows = Inr (filter (\<lambda>x. split_is which x = Inr True) rows)" .
  also have "filter (\<lambda>x. split_is which x = Inr True) rows = filter (\<lambda>x. x ! 0 = which) rows"
    using assms by (intro filter_cong) (auto simp: list_all_iff split_is_nonempty)
  finally show ?thesis .
qed

lemma split_train_test_total:
  "list_all (\<lambda>x. x \<noteq> []) (data self) \<Longrightarrow>
   split_train_test self =
     Inr (filter (\<lambda>x. x ! 0 = ''train'') (data self), filter (\<lambda>x. x ! 0 = ''test'') (data self))"
  by (simp add: split_train_test_def py_filter_split_is)

lemma split_train_test_Inr:
  assumes "split_train_test self = Inr (train, test)"
  shows "train = filter (\<lambda>x. x ! 0 = ''train'') (data self)"
    and "test = filter (\<lambda>x. x ! 0 = ''test'') (data self)"
proof -
  from assms have tr: "py_filter (split_is ''train'') (data self) = Inr train"
    and te: "py_filter (split_is ''test'') (data self) = Inr test"
    by (auto simp: split_train_test_def split: sum.splits)
  from py_filter_Inr [OF tr] have "list_all (\<lambda>x. \<exists>b. split_is ''train'' x = Inr b) (data self)"
    by simp
  then have ne: "list_all (\<lambda>x. x \<noteq> []) (data self)"
    by (auto simp: list_all_iff split_is_def py_nth_def split: if_splits)
  from split_train_test_total [OF ne] assms
  show "train = filter (\<lambda>x. x ! 0 = ''train'') (data self)"
    and "test = filter (\<lambda>x. x ! 0 = ''test'') (data self)"
    by simp_all
qed

text \<open>
  C10. For every partition name other than exactly \<^verbatim>\<open>train\<close>, the generator draws
  from the test partition: whenever the split itself succeeds, the name resolves to the
  rows whose first column is \<^verbatim>\<open>test\<close>, no error is raised for the name, and the first
  \<^verbatim>\<open>next\<close> of the generator is a loop turn over those rows.
\<close>

theorem other_names_draw_from_test:
  assumes "train_test \<noteq> ''train''" and "split_train_test self = Inr (train, test)"
  shows "resolve_partition self train_test = Inr test \<and>
         test = filter (\<lambda>x. x ! 0 = ''test'') (data self) \<and>
         generator_next glob process_image rnd (frame_generator self batch_size train_test) =
           loop_turn glob process_image rnd self batch_size test"
proof -
  have r: "resolve_partition self train_test = Inr test"
    using assms by (simp add: resolve_partition_def)
  then have "generator_next glob process_image rnd (frame_generator self batch_size train_test) =
             loop_turn glob process_image rnd self batch_size test"
    by (simp add: generator_next_def frame_generator_def)
  with r split_train_test_Inr(2) [OF assms(2)] show ?thesis by blast
qed

lemma catalog_example_split:
  "split_train_test catalog_example =
     Inr ([[''train'', ''b'', ''v1'', ''50'']], [[''test'', ''b'', ''v4'', ''300'']])"
  by (simp add: split_train_test_def split_is_def py_nth_def catalog_example_def)

theorem other_names_draw_from_test_witness:
  "''Train'' \<noteq> ''train'' \<and> ''validation'' \<noteq> ''train'' \<and>
   resolve_partition catalog_example ''Train'' = Inr [[''test'', ''b'', ''v4'', ''300'']] \<and>
   resolve_partition catalog_example ''validation'' = Inr [[''test'', ''b'', ''v4'', ''300'']]"
proof -
  have a: "''Train'' \<noteq> ''train''" and b: "''validation'' \<noteq> ''train''" by simp_all
  from other_names_draw_from_test [OF a catalog_example_split]
    other_names_draw_from_test [OF b catalog_example_split]
  show ?thesis using a b by blast
qed

section \<open>Drawing a batch\<close>

lemma pool_step:
  assumes "j < m" and "m \<le> length pool"
  shows "add_mset (pool ! j) (mset (take (m - 1) (pool[j := pool ! (m - 1)]))) = mset (take m pool)"
proof -
  from assms have m: "m - 1 < length pool" and mm: "Suc (m - 1) = m" by simp_all
  have tk: "take m pool = take (m - 1) pool @ [pool ! (m - 1)]"
    using take_Suc_conv_app_nth [OF m] mm by simp
  show ?thesis
  proof (cases "j = m - 1")
    case True
    then show ?thesis using tk by simp
  next
    case False
    with assms have j: "j < m - 1" by simp
    then have jl: "j < length (take (m - 1) pool)" using m by simp
    have "take (m - 1) (pool[j := pool ! (m - 1)]) = (take (m - 1) pool)[j := pool ! (m - 1)]"
      by (simp add: take_update_swap)
    then have "mset (take (m - 1) (pool[j := pool ! (m - 1)])) =
          add_mset (pool ! (m - 1)) (mset (take (m - 1) pool) - {#pool ! j#})"
      using mset_update [OF jl, of "pool ! (m - 1)"] j by simp
    moreover have "pool ! j \<in># mset (take (m - 1) pool)"
      using jl j by (metis in_multiset_in_set nth_mem nth_take)
    ultimately show ?thesis using tk by simp
  qed
qed

lemma sample_pool_draws:
  "r \<le> m \<Longrightarrow> m \<le> length pool \<Longrightarrow>
   length (sample_pool rnd i pool m r) = r \<and>
   mset (sample_pool rnd i pool m r) \<subseteq># mset (take m pool)"
proof (induction r arbitrary: i pool m)
  case 0
  then show ?case by simp
next
  case (Suc r)
  define j where "j = rnd i mod m"
  from Suc.prems have mpos: "0 < m" by simp
  then have j: "j < m" by (simp add: j_def)
  let ?pool = "pool[j := pool ! (m - 1)]"
  have "r \<le> m - 1" and "m - 1 \<le> length ?pool" using Suc.prems by simp_all
  from Suc.IH [OF this]
  have len: "length (sample_pool rnd (Suc i) ?pool (m - 1) r) = r"
    and sub: "mset (sample_pool rnd (Suc i) ?pool (m - 1) r) \<subseteq># mset (take (m - 1) ?pool)"
    by simp_all
  have "mset (sample_pool rnd i pool m (Suc r)) =
        add_mset (pool ! j) (mset (sample_pool rnd (Suc i) ?pool (m - 1) r))"
    by (simp add: j_def Let_def)
  also have "\<dots> \<subseteq># add_mset (pool ! j) (mset (take (m - 1) ?pool))"
    using sub by simp
  also have "\<dots> = mset (take m pool)"
    by (rule pool_step [OF j Suc.prems(2)])
  finally have "mset (sample_pool rnd i pool m (Suc r)) \<subseteq># mset (take m pool)" .
  moreover have "length (sample_pool rnd i pool m (Suc r)) = Suc r"
    using len by (simp add: j_def Let_def)
  ultimately show ?case by simp
qed

lemma mset_subset_distinct:
  assumes "mset ys \<subseteq># mset xs" and "distinct xs"
  shows "distinct ys"
proof -
  have "count (mset ys) a \<le> 1" for a
  proof -
    have "count (mset ys) a \<le> count (mset xs) a"
      using assms(1) by (simp add: mset_subset_eq_count)
    also have "\<dots> \<le> 1"
      using assms(2) by (simp add: distinct_count_atmost_1)
    finally show ?thesis .
  qed
  then show ?thesis
    by (simp add: distinct_count_atmost_1) (metis count_mset_0_iff le_antisym not_less_eq_eq One_nat_def le0 not_in_iff count_greater_eq_one_iff)
qed

lemma random_sample_Inr:
  assumes "random_sample rnd population k = Inr samples"
  shows "0 \<le> k" and "k \<le> int (length population)" and "length samples = nat k"
    and "mset samples \<subseteq># mset population"
proof -
  from assms have k: "0 \<le> k" "k \<le> int (length population)"
    and s: "samples = sample_pool rnd 0 population (length population) (nat k)"
    by (auto simp: random_sample_def split: if_splits)
  from k have "nat k \<le> length population" by simp
  from sample_pool_draws [OF this order_refl, of rnd 0] s
  show "length samples = nat k" and "mset samples \<subseteq># mset population" by simp_all
  from k show "0 \<le> k" and "k \<le> int (length population)" by simp_all
qed

lemma random_sample_too_many:
  "int (length population) < k \<Longrightarrow> random_sample rnd population k = Inl ValueError"
  by (simp add: random_sample_def)

lemma image_sequence_length:
  "image_sequence process_image shape frames = Inr imgs \<Longrightarrow> length imgs = length frames"
  by (induction frames arbitrary: imgs) (auto split: sum.splits)

lemma rescale_list_length:
  assumes "rescale_list xs sz = Inr out" and "0 \<le> sz"
  shows "length out = nat sz"
proof -
  from assms have nz: "sz \<noteq> 0" and le: "sz \<le> int (length xs)"
    by (auto simp: rescale_list_def split: if_splits)
  with assms(2) have pos: "0 < sz" by simp
  from rescale_list_pos [OF pos le] assms(1) show ?thesis by auto
qed

lemma fill_batch_rows:
  assumes "fill_batch glob process_image self samples = Inr rows" and "0 \<le> seq_length self"
  shows "length rows = length samples \<and>
         list_all (\<lambda>r. length (fst r) = nat (seq_length self)) rows \<and>
         list_all2 (\<lambda>s v. get_class_one_hot self (s ! 1) = Inr v) samples (map snd rows)"
  using assms
proof (induction samples arbitrary: rows)
  case Nil
  then show ?case by simp
next
  case (Cons sample rest)
  from Cons.prems(1) obtain frames sampled sequence class_str label_hot rows'
    where f: "get_frames_for_sample glob sample = Inr frames"
      and r: "rescale_list frames (seq_length self) = Inr sampled"
      and b: "build_image_sequence process_image self sampled = Inr sequence"
      and c: "py_nth sample 1 = Inr class_str"
      and h: "get_class_one_hot self class_str = Inr label_hot"
      and t: "fill_batch glob process_image self rest = Inr rows'"
      and rows: "rows = (sequence, label_hot) # rows'"
    by (auto split: sum.splits)
  from c have cs: "class_str = sample ! 1"
    by (auto simp: py_nth_def split: if_splits)
  have "length sequence = nat (seq_length self)"
    using image_sequence_length [of process_image "image_shape self" sampled sequence] b
      rescale_list_length [OF r Cons.prems(2)]
    by (simp add: build_image_sequence_def)
  with Cons.IH [OF t Cons.prems(2)] rows h cs show ?case by simp
qed

lemma next_batch_insufficient:
  "int (length part) < batch_size \<Longrightarrow>
   next_batch glob process_image rnd self batch_size part = Inl ValueError"
  by (simp add: next_batch_def random_sample_too_many)

lemma next_batch_Inr:
  assumes "next_batch glob process_image rnd self batch_size part = Inr (x, y)"
  shows "\<exists>samples. random_sample rnd part batch_size = Inr samples \<and>
           length x = nat batch_size \<and> length y = nat batch_size \<and>
           list_all (\<lambda>r. length r = nat (seq_length self)) x \<and>
           list_all2 (\<lambda>s v. get_class_one_hot self (s ! 1) = Inr v) samples y"
proof -
  from assms obtain samples rows
    where z: "np_zeros_ok (batch_size # seq_length self # image_shape self)"
      and s: "random_sample rnd part batch_size = Inr samples"
      and f: "fill_batch glob process_image self samples = Inr rows"
      and xy: "x = map fst rows" "y = map snd rows"
    by (auto simp: next_batch_def split: if_splits sum.splits)
  from z have sl: "0 \<le> seq_length self" by (simp add: np_zeros_ok_def)
  from fill_batch_rows [OF f sl] random_sample_Inr(3) [OF s] xy s
  show ?thesis by (auto simp: list_all_iff)
qed

text \<open>
  C5. For every partition and batch size, one turn of the generator with a batch size
  greater than the partition size fails (the \<^verbatim>\<open>ValueError\<close> of the draw, or of the
  allocation) and returns nothing. When a turn returns a batch, the batch is complete:
  \<open>x\<close> and \<open>y\<close> have exactly \<open>batch_size\<close> rows, every row of \<open>x\<close> has \<open>seq_length\<close>
  frames, and the rows come from \<open>batch_size\<close> samples drawn from the partition
  without replacement: as a multiset the drawn samples are contained in the partition,
  so no row is drawn more often than it occurs there, and they are pairwise distinct
  when the rows of the partition are.
\<close>

theorem next_batch_all_or_nothing:
  "(int (length part) < batch_size \<longrightarrow>
      next_batch glob process_image rnd self batch_size part = Inl ValueError) \<and>
   (next_batch glob process_image rnd self batch_size part = Inr (x, y) \<longrightarrow>
      0 \<le> batch_size \<and> batch_size \<le> int (length part) \<and>
      length x = nat batch_size \<and> length y = nat batch_size \<and>
      list_all (\<lambda>r. length r = nat (seq_length self)) x \<and>
      (\<exists>samples. random_sample rnd part batch_size = Inr samples \<and>
         length samples = nat batch_size \<and>
         mset samples \<subseteq># mset part \<and>
         (distinct part \<longrightarrow> distinct samples) \<and>
         list_all2 (\<lambda>s v. get_class_one_hot self (s ! 1) = Inr v) samples y))"
proof (intro conjI impI)
  assume "int (length part) < batch_size"
  then show "next_batch glob process_image rnd self batch_size part = Inl ValueError"
    by (rule next_batch_insufficient)
next
  assume a: "next_batch glob process_image rnd self batch_size part = Inr (x, y)"
  from next_batch_Inr [OF a] obtain samples
    where s: "random_sample rnd part batch_size = Inr samples"
      and l: "length x = nat batch_size" "length y = nat batch_size"
        "list_all (\<lambda>r. length r = nat (seq_length self)) x"
        "list_all2 (\<lambda>s v. get_class_one_hot self (s ! 1) = Inr v) samples y"
    by blast
  note r = random_sample_Inr [OF s]
  show "0 \<le> batch_size" by (rule r(1))
  show "batch_size \<le> int (length part)" by (rule r(2))
  show "length x = nat batch_size" by (rule l(1))
  show "length y = nat batch_size" by (rule l(2))
  show "list_all (\<lambda>r. length r = nat (seq_length self)) x" by (rule l(3))
  show "\<exists>samples. random_sample rnd part batch_size = Inr samples \<and>
         length samples = nat batch_size \<and>
         mset samples \<subseteq># mset part \<and>
         (distinct part \<longrightarrow> distinct samples) \<and>
         list_all2 (\<lambda>s v. get_class_one_hot self (s ! 1) = Inr v) samples y"
    using s r(3) r(4) l(4) mset_subset_distinct [OF r(4)] by blast
qed

lemma batch_example:
  "next_batch glob_example decode_example (\<lambda>i. i) batch_catalog 2 (data batch_catalog) =
     Inr ([[''f1'', ''f2''], [''f1'', ''f2'']], [[1, 0], [0, 1]])"
  by code_simp

theorem next_batch_all_or_nothing_witness:
  "next_batch glob_example decode_example (\<lambda>i. i) batch_catalog 2 (data batch_catalog) =
     Inr ([[''f1'', ''f2''], [''f1'', ''f2'']], [[1, 0], [0, 1]]) \<and>
   length [[''f1'', ''f2''], [''f1'', ''f2'']] = nat 2 \<and>
   int (length (data batch_catalog)) < 3 \<and>
   next_batch glob_example decode_example (\<lambda>i. i) batch_catalog 3 (data batch_catalog) =
     Inl ValueError"
proof -
  have lt: "int (length (data batch_catalog)) < 3"
    by (simp add: batch_catalog_def)
  from next_batch_all_or_nothing
    [of "data batch_catalog" 3 glob_example decode_example "\<lambda>i. i" batch_catalog] lt
  have "next_batch glob_example decode_example (\<lambda>i. i) batch_catalog 3 (data batch_catalog) =
        Inl ValueError"
    by blast
  moreover from next_batch_all_or_nothing
    [of "data batch_catalog" 2 glob_example decode_example "\<lambda>i. i" batch_catalog
      "[[''f1'', ''f2''], [''f1'', ''f2'']]" "[[1, 0], [0, 1]]"] batch_example
  have "length [[''f1'', ''f2''], [''f1'', ''f2'']] = nat 2" by blast
  ultimately show ?thesis using batch_example lt by blast
qed

section \<open>The generator\<close>

lemma loop_turn_state:
  "snd (loop_turn glob process_image rnd self batch_size part) = Suspended self batch_size part \<or>
   snd (loop_turn glob process_image rnd self batch_size part) = Closed"
  by (simp add: loop_turn_def split: sum.splits)

text \<open>
  C7 (as amended). Constructing a batch generator never fails, also over an empty
  partition: it runs none of the body and only records its arguments. The partition is
  resolved once, by the first \<^verbatim>\<open>next\<close>, and the suspended generator keeps it for every
  later turn. Over an empty partition that first \<^verbatim>\<open>next\<close> fails with \<^verbatim>\<open>ValueError\<close>
  for every batch size \<open>\<ge> 1\<close>, and the generator is closed.
\<close>

theorem generator_resolves_on_first_next:
  assumes "resolve_partition self train_test = Inr part"
  shows "frame_generator self batch_size train_test = Created self batch_size train_test \<and>
         generator_next glob process_image rnd (frame_generator self batch_size train_test) =
           loop_turn glob process_image rnd self batch_size part \<and>
         (snd (generator_next glob process_image rnd (frame_generator self batch_size train_test)) =
            Suspended self batch_size part \<or>
          snd (generator_next glob process_image rnd (frame_generator self batch_size train_test)) =
            Closed) \<and>
         generator_next glob process_image rnd' (Suspended self batch_size part) =
           loop_turn glob process_image rnd' self batch_size part \<and>
         (part = [] \<and> 1 \<le> batch_size \<longrightarrow>
            generator_next glob process_image rnd (frame_generator self batch_size train_test) =
              (Inl ValueError, Closed))"
proof -
  have first: "generator_next glob process_image rnd (frame_generator self batch_size train_test) =
               loop_turn glob process_image rnd self batch_size part"
    using assms by (simp add: generator_next_def frame_generator_def)
  have later: "generator_next glob process_image rnd' (Suspended self batch_size part) =
               loop_turn glob process_image rnd' self batch_size part"
    by (simp add: generator_next_def)
  have empty: "generator_next glob process_image rnd (frame_generator self batch_size train_test) =
               (Inl ValueError, Closed)" if "part = []" and "1 \<le> batch_size"
  proof -
    from that have "int (length part) < batch_size" by simp
    from next_batch_insufficient [OF this, of glob process_image rnd self] first show ?thesis
      by (simp add: loop_turn_def)
  qed
  show ?thesis
    using first later empty loop_turn_state [of glob process_image rnd self batch_size part]
    by (simp add: frame_generator_def)
qed

lemma empty_catalog_train: "resolve_partition empty_catalog ''train'' = Inr []"
  by (simp add: resolve_partition_def split_train_test_def empty_catalog_def)

theorem generator_resolves_on_first_next_witness:
  "resolve_partition empty_catalog ''train'' = Inr [] \<and>
   frame_generator empty_catalog 2 ''train'' = Created empty_catalog 2 ''train'' \<and>
   generator_next glob_example decode_example (\<lambda>i. i) (frame_generator empty_catalog 2 ''train'') =
     (Inl ValueError, Closed)"
proof -
  note t = generator_resolves_on_first_next [OF empty_catalog_train,
      of 2 glob_example decode_example "\<lambda>i. i"]
  have p: "([] :: row list) = [] \<and> (1::int) \<le> 2" by simp
  from t have "frame_generator empty_catalog 2 ''train'' = Created empty_catalog 2 ''train''"
    by blast
  moreover from t p have "generator_next glob_example decode_example (\<lambda>i. i)
           (frame_generator empty_catalog 2 ''train'') = (Inl ValueError, Closed)"
    by blast
  ultimately show ?thesis using empty_catalog_train by blast
qed

text \<open>
  Over a catalog without rows the test partition is empty, and construction returns a
  generator.
\<close>

theorem empty_partition_construction_counterexample:
  "resolve_partition empty_catalog ''test'' = Inr [] \<and>
   frame_generator empty_catalog 8 ''test'' = Created empty_catalog 8 ''test'' \<and>
   frame_generator empty_catalog 8 ''test'' \<noteq> Closed"
  by (simp add: resolve_partition_def split_train_test_def empty_catalog_def frame_generator_def)

text \<open>With batch size \<open>0\<close> an empty partition never fails: each turn yields an empty batch.\<close>

lemma empty_partition_zero_batch:
  "generator_next glob_example decode_example (\<lambda>i. i) (frame_generator empty_catalog 0 ''train'') =
     (Inr ([], []), Suspended empty_catalog 0 [])"
  by code_simp

section \<open>Top predictions\<close>

lemma dict_set_fresh: "k \<notin> fst ` set d \<Longrightarrow> dict_set k v d = d @ [(k, v)]"
  by (induction d) auto

lemma label_predictions_short:
  "i \<le> length predictions \<Longrightarrow> length predictions < i + length labels \<Longrightarrow>
   label_predictions labels predictions i d = Inl IndexError"
  by (induction labels arbitrary: i d) (auto simp: py_nth_def)

lemma label_predictions_distinct:
  "distinct labels \<Longrightarrow> set labels \<inter> fst ` set d = {} \<Longrightarrow>
   i + length labels \<le> length predictions \<Longrightarrow>
   label_predictions labels predictions i d = Inr (d @ zip labels (drop i predictions))"
proof (induction labels arbitrary: i d)
  case Nil
  then show ?case by simp
next
  case (Cons label rest)
  from Cons.prems have i: "i < length predictions" by simp
  from Cons.prems have fresh: "label \<notin> fst ` set d" by auto
  have d': "dict_set label (predictions ! i) d = d @ [(label, predictions ! i)]"
    by (rule dict_set_fresh [OF fresh])
  have disj: "set rest \<inter> fst ` set (d @ [(label, predictions ! i)]) = {}"
    using Cons.prems by auto
  have "label_predictions rest predictions (Suc i) (d @ [(label, predictions ! i)]) =
        Inr ((d @ [(label, predictions ! i)]) @ zip rest (drop (Suc i) predictions))"
    using Cons.prems by (intro Cons.IH disj) simp_all
  moreover have "drop i predictions = predictions ! i # drop (Suc i) predictions"
    using i by (simp add: Cons_nth_drop_Suc)
  ultimately show ?case using i d' by (simp add: py_nth_def)
qed

lemma sorted_lps_descending: "sorted_wrt (\<lambda>p q. snd q \<le> snd p) (sorted_lps items)"
proof -
  have "sorted (map snd (sort_key snd (rev items)))" by (rule sorted_sort_key)
  then have "sorted_wrt (\<lambda>p q. snd p \<le> snd q) (sort_key snd (rev items))"
    by (simp add: sorted_wrt_map)
  then show ?thesis by (simp add: sorted_lps_def sorted_wrt_rev)
qed

lemma sorted_lps_stable:
  "filter (\<lambda>p. snd p = s) (sorted_lps items) = filter (\<lambda>p. snd p = s) items"
proof -
  have "filter (\<lambda>p. snd p = s) (sorted_lps items) =
        rev (filter (\<lambda>p. snd p = s) (sort_key snd (rev items)))"
    by (simp add: sorted_lps_def rev_filter)
  also have "\<dots> = rev (filter (\<lambda>p. snd p = s) (rev items))"
    by (simp only: sort_key_stable)
  also have "\<dots> = filter (\<lambda>p. snd p = s) items"
    by (simp add: rev_filter)
  finally show ?thesis .
qed

lemma sorted_lps_mset: "mset (sorted_lps items) = mset items"
  by (simp add: sorted_lps_def)

lemma print_top_take:
  "print_top i n xs = takeWhile (\<lambda>p. snd p \<noteq> 0) (take (nat (n - int i)) xs)"
proof (induction xs arbitrary: i)
  case Nil
  show ?case by simp
next
  case (Cons cp rest)
  show ?case
  proof (cases "int i > n - 1")
    case True
    then have "nat (n - int i) = 0" by simp
    with True show ?thesis by simp
  next
    case False
    then have "nat (n - int i) = Suc (nat (n - int (Suc i)))" by simp
    with False Cons.IH [of "Suc i"] show ?thesis by simp
  qed
qed

lemma print_top_length: "length (print_top 0 n xs) \<le> nat n"
proof -
  have "length (takeWhile (\<lambda>p. snd p \<noteq> 0) (take (nat n) xs)) \<le> length (take (nat n) xs)"
    by (rule length_takeWhile_le)
  then show ?thesis by (simp add: print_top_take)
qed

text \<open>
  What the body computes once another module has bound the global \<^verbatim>\<open>data\<close> to a
  catalog \<open>d\<close> with a duplicate-free vocabulary, for totally ordered scores: a
  predictions vector with fewer scores than the vocabulary has labels raises
  \<^verbatim>\<open>IndexError\<close>; otherwise each label is paired with the score at the same position,
  the pairs are sorted descending by score, pairs with equal scores keeping their
  original order, and the result is the sorted list cut to at most \<open>n\<close> entries and
  stopped before the first pair whose score is zero.
\<close>

lemma ranking_when_data_is_bound:
  assumes "globals ''data'' = Some d" and "distinct (classes d)"
  shows "print_class_from_prediction globals sorted_lps predictions n =
           (if length predictions < length (classes d) then Inl IndexError
            else Inr (takeWhile (\<lambda>p. snd p \<noteq> 0)
                        (take (nat n) (sorted_lps (zip (classes d) predictions))))) \<and>
         sorted_wrt (\<lambda>p q. snd q \<le> snd p) (sorted_lps (zip (classes d) predictions)) \<and>
         mset (sorted_lps (zip (classes d) predictions)) = mset (zip (classes d) predictions) \<and>
         filter (\<lambda>p. snd p = s) (sorted_lps (zip (classes d) predictions)) =
           filter (\<lambda>p. snd p = s) (zip (classes d) predictions) \<and>
         length (takeWhile (\<lambda>p. snd p \<noteq> 0)
                   (take (nat n) (sorted_lps (zip (classes d) predictions)))) \<le> nat n"
proof -
  have run: "print_class_from_prediction globals sorted_lps predictions n =
           (if length predictions < length (classes d) then Inl IndexError
            else Inr (takeWhile (\<lambda>p. snd p \<noteq> 0)
                        (take (nat n) (sorted_lps (zip (classes d) predictions)))))"
  proof (cases "length predictions < length (classes d)")
    case True
    then show ?thesis
      using assms(1) by (simp add: print_class_from_prediction_def label_predictions_short)
  next
    case False
    then have "label_predictions (classes d) predictions 0 [] =
               Inr ([] @ zip (classes d) (drop 0 predictions))"
      using assms(2) by (intro label_predictions_distinct) simp_all
    with False show ?thesis
      using assms(1) by (simp add: print_class_from_prediction_def print_top_take)
  qed
  have "length (takeWhile (\<lambda>p. snd p \<noteq> 0)
                   (take (nat n) (sorted_lps (zip (classes d) predictions)))) \<le>
        length (take (nat n) (sorted_lps (zip (classes d) predictions)))"
    by (rule length_takeWhile_le)
  then have "length (takeWhile (\<lambda>p. snd p \<noteq> 0)
                   (take (nat n) (sorted_lps (zip (classes d) predictions)))) \<le> nat n"
    by simp
  with run sorted_lps_descending sorted_lps_mset sorted_lps_stable show ?thesis
    by blast
qed

text \<open>
  With \<^verbatim>\<open>data\<close> bound to a catalog of four labels: the example of the specification
  (scores \<open>0.9, 0.1, 0.0, 0.0\<close>, \<open>n = 5\<close>), equal scores staying in vocabulary order, and
  a predictions vector that is too short.
\<close>

lemma ranking_bound_example:
  "print_class_from_prediction [''data'' \<mapsto> ranking_catalog] sorted_lps
     [9 / 10, 1 / 10, 0, 0 :: real] 5 =
     Inr [(''a'', 9 / 10), (''b'', 1 / 10)]"
  by (simp add: print_class_from_prediction_def ranking_catalog_def py_nth_def sorted_lps_def)

lemma ranking_bound_ties:
  "print_class_from_prediction [''data'' \<mapsto> ranking_catalog] sorted_lps
     [1 / 2, 3 / 4, 1 / 2, 3 / 4 :: real] 3 =
     Inr [(''b'', 3 / 4), (''d'', 3 / 4), (''a'', 1 / 2)]"
  by (simp add: print_class_from_prediction_def ranking_catalog_def py_nth_def sorted_lps_def)

lemma ranking_bound_short_vector:
  "print_class_from_prediction [''data'' \<mapsto> ranking_catalog] sorted_lps [9 / 10 :: real] 5 =
     Inl IndexError"
  by (simp add: print_class_from_prediction_def ranking_catalog_def py_nth_def)

text \<open>
  C8. The claim says that the ranking pairs every score with its label, sorts the pairs
  and returns at most \<open>n\<close> of them. In the module as it stands the name \<^verbatim>\<open>data\<close> that
  the function reads is bound nowhere: for every predictions vector, every \<open>n\<close> and
  whatever \<^verbatim>\<open>sorted\<close> does, the call raises \<^verbatim>\<open>NameError\<close> and prints nothing.
\<close>

theorem print_class_from_prediction_name_error:
  "print_class_from_prediction producer_globals py_sorted predictions nb_to_return =
     Inl NameError"
  by (simp add: print_class_from_prediction_def producer_globals_def)

text \<open>The example of the specification, on the module as it stands.\<close>

theorem print_class_from_prediction_name_error_witness:
  "print_class_from_prediction producer_globals sorted_lps [9 / 10, 1 / 10, 0, 0 :: real] 5 =
     Inl NameError \<and>
   print_class_from_prediction producer_globals sorted_lps [9 / 10, 1 / 10, 0, 0 :: real] 5 \<noteq>
     Inr [(''a'', 9 / 10), (''b'', 1 / 10)]"
  using print_class_from_prediction_name_error [of sorted_lps "[9 / 10, 1 / 10, 0, 0 :: real]" 5]
  by simp

end
